theory Spec2Isabelle
  imports Main "HOL-Library.Sublist" "HOL-Library.Word"
begin

section \<open>Python values used by the server\<close>

text \<open>
  A Python \<open>str\<close> is a sequence of Unicode code points, so it is modelled as a list of
  natural numbers; \<open>bytes\<close> is a list of 8-bit words. ASCII literals of the source are
  written with \<open>ascii\<close>; the four pictographs of the source are given by their code
  points.
\<close>

type_synonym pystr = "nat list"

type_synonym pybytes = "8 word list"

definition ascii :: "string \<Rightarrow> pystr" where
  "ascii s = map of_char s"

definition cross_mark :: pystr where
  \<comment> \<open>U+274C\<close>
  "cross_mark = [10060]"

definition check_mark :: pystr where
  \<comment> \<open>U+2705\<close>
  "check_mark = [9989]"

definition warning_sign :: pystr where
  \<comment> \<open>U+26A0 U+FE0F\<close>
  "warning_sign = [9888, 65039]"

definition info_sign :: pystr where
  \<comment> \<open>U+2139 U+FE0F\<close>
  "info_sign = [8505, 65039]"

definition nl :: pystr where
  "nl = [10]"

definition backtick :: pystr where
  "backtick = [96]"

subsection \<open>\<open>str.startswith\<close> and the substring test \<open>p in s\<close>\<close>

fun startswith :: "pystr \<Rightarrow> pystr \<Rightarrow> bool" where
  "startswith s [] = True"
| "startswith [] (p # ps) = False"
| "startswith (c # cs) (p # ps) = (c = p \<and> startswith cs ps)"

fun py_in :: "pystr \<Rightarrow> pystr \<Rightarrow> bool" where
  "py_in p [] = (p = [])"
| "py_in p (c # cs) = (startswith (c # cs) p \<or> py_in p cs)"

subsection \<open>\<open>sep.join(parts)\<close>\<close>

fun join :: "pystr \<Rightarrow> pystr list \<Rightarrow> pystr" where
  "join sep [] = []"
| "join sep [x] = x"
| "join sep (x # y # ys) = x @ sep @ join sep (y # ys)"

subsection \<open>\<open>str(n)\<close> for an integer\<close>

fun str_nat :: "nat \<Rightarrow> pystr" where
  "str_nat n = (if n < 10 then [48 + n] else str_nat (n div 10) @ [48 + n mod 10])"

definition str_int :: "int \<Rightarrow> pystr" where
  "str_int i = (if i < 0 then 45 # str_nat (nat (- i)) else str_nat (nat i))"

subsection \<open>\<open>str.strip()\<close>\<close>

text \<open>
  The characters \<open>str.isspace\<close> accepts: the ASCII controls 9..13 and 28..31, the
  space, and the Unicode separators.
\<close>

definition isspace :: "nat \<Rightarrow> bool" where
  "isspace c = ((9 \<le> c \<and> c \<le> 13) \<or> (28 \<le> c \<and> c \<le> 32) \<or> c = 133 \<or> c = 160
     \<or> c = 5760 \<or> (8192 \<le> c \<and> c \<le> 8202) \<or> c = 8232 \<or> c = 8233
     \<or> c = 8239 \<or> c = 8287 \<or> c = 12288)"

definition strip :: "pystr \<Rightarrow> pystr" where
  "strip s = rev (dropWhile isspace (rev (dropWhile isspace s)))"

subsection \<open>\<open>str.lower()\<close>\<close>

text \<open>
  Lower-casing maps the ASCII capitals to their small letters and leaves every other
  ASCII character alone. What it does to a code point beyond ASCII is decided by the
  Unicode tables of the interpreter, which may look at the characters around it (the
  final sigma) and may give several code points; that table is the parameter \<open>U\<close>,
  called with the text before the character, the character and the text after it.
\<close>

type_synonym lower_table = "pystr \<Rightarrow> nat \<Rightarrow> pystr \<Rightarrow> pystr"

definition ascii_lower :: "nat \<Rightarrow> nat" where
  "ascii_lower c = (if 65 \<le> c \<and> c \<le> 90 then c + 32 else c)"

fun lower_from :: "lower_table \<Rightarrow> pystr \<Rightarrow> pystr \<Rightarrow> pystr" where
  "lower_from U pre [] = []"
| "lower_from U pre (c # rest) =
     (if c < 128 then [ascii_lower c] else U pre c rest) @ lower_from U (pre @ [c]) rest"

definition py_lower :: "lower_table \<Rightarrow> pystr \<Rightarrow> pystr" where
  "py_lower U s = lower_from U [] s"

subsection \<open>\<open>bytes.decode()\<close>: strict UTF-8\<close>

text \<open>
  \<open>bytes.decode()\<close> with no argument decodes UTF-8 and raises \<open>UnicodeDecodeError\<close> on
  the first ill-formed sequence (a stray continuation byte, a truncated or overlong
  sequence, an encoded surrogate, a value beyond U+10FFFF). \<open>None\<close> stands for the
  raise.
\<close>

definition is_cont :: "nat \<Rightarrow> bool" where
  "is_cont b = (128 \<le> b \<and> b < 192)"

text \<open>
  The range of the byte after a lead byte: narrower after E0 and F0 (no overlong
  form), after ED (no surrogate) and after F4 (nothing beyond U+10FFFF).
\<close>

definition second_lo :: "nat \<Rightarrow> nat" where
  "second_lo b0 = (if b0 = 224 then 160 else if b0 = 240 then 144 else 128)"

definition second_hi :: "nat \<Rightarrow> nat" where
  "second_hi b0 = (if b0 = 237 then 160 else if b0 = 244 then 144 else 192)"

fun utf8_decode_nat :: "nat list \<Rightarrow> pystr option" where
  "utf8_decode_nat [] = Some []"
| "utf8_decode_nat (b0 # bs) =
     (if b0 < 128 then map_option ((#) b0) (utf8_decode_nat bs)
      else if 194 \<le> b0 \<and> b0 < 224 then
        (case bs of
           b1 # r \<Rightarrow>
             if is_cont b1
             then map_option ((#) ((b0 - 192) * 64 + (b1 - 128))) (utf8_decode_nat r)
             else None
         | _ \<Rightarrow> None)
      else if 224 \<le> b0 \<and> b0 < 240 then
        (case bs of
           b1 # b2 # r \<Rightarrow>
             if second_lo b0 \<le> b1 \<and> b1 < second_hi b0 \<and> is_cont b2
             then map_option ((#) ((b0 - 224) * 4096 + (b1 - 128) * 64 + (b2 - 128)))
                    (utf8_decode_nat r)
             else None
         | _ \<Rightarrow> None)
      else if 240 \<le> b0 \<and> b0 < 245 then
        (case bs of
           b1 # b2 # b3 # r \<Rightarrow>
             if second_lo b0 \<le> b1 \<and> b1 < second_hi b0 \<and> is_cont b2 \<and> is_cont b3
             then map_option
                    ((#) ((b0 - 240) * 262144 + (b1 - 128) * 4096 + (b2 - 128) * 64 + (b3 - 128)))
                    (utf8_decode_nat r)
             else None
         | _ \<Rightarrow> None)
      else None)"

definition utf8_decode :: "pybytes \<Rightarrow> pystr option" where
  "utf8_decode bs = utf8_decode_nat (map unat bs)"

subsection \<open>Well-formed UTF-8\<close>

text \<open>
  The UTF-8 form of a text, after the Unicode standard: one to four bytes for each
  scalar value, that is, each code point up to U+10FFFF that is not a surrogate
  (D800 to DFFF). These byte sequences are the well-formed ones.
\<close>

definition valid_scalar :: "nat \<Rightarrow> bool" where
  "valid_scalar c = (c < 55296 \<or> (57344 \<le> c \<and> c < 1114112))"

definition utf8_encode_cp :: "nat \<Rightarrow> nat list" where
  "utf8_encode_cp c =
     (if c < 128 then [c]
      else if c < 2048 then [192 + c div 64, 128 + c mod 64]
      else if c < 65536 then [224 + c div 4096, 128 + c div 64 mod 64, 128 + c mod 64]
      else [240 + c div 262144, 128 + c div 4096 mod 64, 128 + c div 64 mod 64, 128 + c mod 64])"

definition utf8_encode :: "pystr \<Rightarrow> pybytes" where
  "utf8_encode t = map of_nat (concat (map utf8_encode_cp t))"

section \<open>The host, the outcomes of its calls, and the effects of the server\<close>

text \<open>
  The exceptions the calls of \<open>run_install_script\<close> raise: an \<open>OSError\<close> (with its
  errno) from the file system and from spawning, and \<open>UnicodeDecodeError\<close> from
  \<open>bytes.decode\<close>. How \<open>str(e)\<close> renders one is left to the interpreter
  (\<open>str_exn\<close> below).
\<close>

datatype exn = OSError nat | UnicodeDecodeError

record disk_file =
  f_content :: pystr
  f_mode :: nat

text \<open>
  What the server does to its surroundings: the files it holds on disk, the child
  processes it has spawned (their argument vectors, in order), the paths it has removed
  (in order), and the messages passed to \<open>ctx.info\<close>.
\<close>

record world =
  files :: "pystr \<rightharpoonup> disk_file"
  spawned :: "pystr list list"
  removed :: "pystr list"
  infos :: "pystr list"

text \<open>
  What the surroundings answer during one call of \<open>run_install_script\<close>. Every call
  site of the source is straight-line code, so one answer per call site is enough.
\<close>

record env =
  tmp_name :: "exn + pystr"
    \<comment> \<open>\<open>NamedTemporaryFile\<close>: a raise, or the fresh name it chose, before the suffix\<close>
  tmp_write :: "(exn \<times> pystr) option"
    \<comment> \<open>writing and closing: a raise, with what had reached the file\<close>
  chmod_raises :: "exn option"
  spawn_raises :: "exn option"
    \<comment> \<open>\<open>asyncio.create_subprocess_exec\<close>\<close>
  communicate :: "exn + (pybytes \<times> pybytes \<times> int)"
    \<comment> \<open>\<open>proc.communicate()\<close>: a raise, or stdout, stderr and the return code\<close>
  remove_raises :: "exn option"
  str_exn :: "exn \<Rightarrow> pystr"
  unicode_lower :: lower_table

text \<open>\<open>platform.system()\<close>, \<open>platform.release()\<close> and \<open>platform.version()\<close>.\<close>

record host =
  platform_system :: pystr
  platform_release :: pystr
  platform_version :: pystr

text \<open>\<open>if ctx: ctx.info(msg)\<close>; \<open>ctx\<close> is whether a context was passed.\<close>

definition info :: "bool \<Rightarrow> pystr \<Rightarrow> world \<Rightarrow> world" where
  "info ctx msg w = (if ctx then w\<lparr>infos := infos w @ [msg]\<rparr> else w)"

section \<open>\<open>morphogen_mcp.py\<close>: the script tools\<close>

subsection \<open>\<open>validate_script\<close>\<close>

definition blacklist :: "pystr list" where
  "blacklist =
     [ascii ''rm -rf /'', ascii ''shutdown'', ascii ''reboot'', ascii '':(){ :|:& };:'',
      ascii ''mkfs'', ascii ''dd if='']"

text \<open>The loop \<open>for bad in blacklist\<close>: the first entry found in the script, if any.\<close>

fun first_bad :: "pystr list \<Rightarrow> pystr \<Rightarrow> pystr option" where
  "first_bad [] script_text = None"
| "first_bad (bad # rest) script_text =
     (if py_in bad script_text then Some bad else first_bad rest script_text)"

definition unsafe_message :: "pystr \<Rightarrow> pystr" where
  "unsafe_message bad =
     cross_mark @ ascii '' Detected unsafe command: '' @ backtick @ bad @ backtick @ nl
       @ ascii ''Aborting installation.''"

definition passed_message :: pystr where
  "passed_message = check_mark @ ascii '' Script passed basic validation.''"

definition validate_script :: "pystr \<Rightarrow> bool \<Rightarrow> world \<Rightarrow> pystr \<times> world" where
  "validate_script script_text ctx w =
     (case first_bad blacklist script_text of
        Some bad \<Rightarrow> (unsafe_message bad, w)
      | None \<Rightarrow> (passed_message, info ctx (ascii ''Script validated successfully.'') w))"

subsection \<open>\<open>run_install_script\<close>\<close>

text \<open>
  Lines 162 to 166: the temporary file is created (mode 0600, empty), the script is
  written and the file closed, and the mode is set to 0755 (decimal 493). The file is
  created with \<open>delete=False\<close>, so a raise after the creation leaves it on disk.
\<close>

definition materialize :: "env \<Rightarrow> pystr \<Rightarrow> world \<Rightarrow> (exn + pystr) \<times> world" where
  "materialize e script_text w =
     (case tmp_name e of
        Inl x \<Rightarrow> (Inl x, w)
      | Inr name \<Rightarrow>
          (let tmp_path = name @ ascii ''.sh'';
               w1 = w\<lparr>files := (files w)(tmp_path \<mapsto> \<lparr>f_content = [], f_mode = 384\<rparr>)\<rparr>
           in case tmp_write e of
                Some (x, partial) \<Rightarrow>
                  (Inl x, w1\<lparr>files := (files w1)(tmp_path \<mapsto> \<lparr>f_content = partial, f_mode = 384\<rparr>)\<rparr>)
              | None \<Rightarrow>
                  (let w2 = w1\<lparr>files := (files w1)(tmp_path \<mapsto> \<lparr>f_content = script_text, f_mode = 384\<rparr>)\<rparr>
                   in case chmod_raises e of
                        Some x \<Rightarrow> (Inl x, w2)
                      | None \<Rightarrow>
                          (Inr tmp_path,
                           w2\<lparr>files := (files w2)(tmp_path \<mapsto> \<lparr>f_content = script_text, f_mode = 493\<rparr>)\<rparr>))))"

definition succeeded_report :: "pystr \<Rightarrow> pystr" where
  "succeeded_report output = check_mark @ ascii '' Installation succeeded:'' @ nl @ nl @ output"

definition failed_report :: "int \<Rightarrow> pystr \<Rightarrow> pystr" where
  "failed_report returncode error =
     cross_mark @ ascii '' Installation failed (exit code '' @ str_int returncode @ ascii ''):''
       @ nl @ nl @ error"

definition error_report :: "pystr \<Rightarrow> pystr" where
  "error_report msg = cross_mark @ ascii '' Error during installation: '' @ msg"

text \<open>
  Lines 172 to 188: spawn \<open>bash tmp_path\<close>, wait for its output, decode and strip
  both streams, remove the file, build the report. The removal is the statement after
  the decoding; nothing removes the file when an earlier statement raises.
\<close>

definition execute :: "env \<Rightarrow> pystr \<Rightarrow> world \<Rightarrow> (exn + pystr) \<times> world" where
  "execute e tmp_path w =
     (case spawn_raises e of
        Some x \<Rightarrow> (Inl x, w)
      | None \<Rightarrow>
          (let w1 = w\<lparr>spawned := spawned w @ [[ascii ''bash'', tmp_path]]\<rparr>
           in case communicate e of
                Inl x \<Rightarrow> (Inl x, w1)
              | Inr (stdout, stderr, returncode) \<Rightarrow>
                  (case utf8_decode stdout of
                     None \<Rightarrow> (Inl UnicodeDecodeError, w1)
                   | Some out \<Rightarrow>
                       (case utf8_decode stderr of
                          None \<Rightarrow> (Inl UnicodeDecodeError, w1)
                        | Some err \<Rightarrow>
                            (let output = strip out; error = strip err
                             in case remove_raises e of
                                  Some x \<Rightarrow> (Inl x, w1)
                                | None \<Rightarrow>
                                    (Inr (if returncode = 0 then succeeded_report output
                                          else failed_report returncode error),
                                     w1\<lparr>files := (files w1)(tmp_path := None),
                                        removed := removed w1 @ [tmp_path]\<rparr>))))))"

text \<open>The body of the \<open>try\<close>: lines 161 to 188.\<close>

definition try_body :: "env \<Rightarrow> pystr \<Rightarrow> bool \<Rightarrow> world \<Rightarrow> (exn + pystr) \<times> world" where
  "try_body e script_text ctx w =
     (case materialize e script_text w of
        (Inl x, w1) \<Rightarrow> (Inl x, w1)
      | (Inr tmp_path, w1) \<Rightarrow>
          execute e tmp_path (info ctx (ascii ''Executing install script: '' @ tmp_path) w1))"

definition run_install_script :: "env \<Rightarrow> pystr \<Rightarrow> bool \<Rightarrow> world \<Rightarrow> pystr \<times> world" where
  "run_install_script e script_text ctx w =
     (case try_body e script_text ctx
             (info ctx (ascii ''Writing install script to temporary file...'') w) of
        (Inr report, w1) \<Rightarrow> (report, w1)
      | (Inl x, w1) \<Rightarrow> (error_report (str_exn e x), w1))"

subsection \<open>\<open>summarize_result\<close>\<close>

definition errors_detected :: pystr where
  "errors_detected = warning_sign @ ascii '' Some errors were detected during installation.''"

definition appears_running :: pystr where
  "appears_running = check_mark @ ascii '' The service appears to be installed and running.''"

definition manual_verification :: pystr where
  "manual_verification =
     info_sign @ ascii '' Installation output reviewed. Manual verification may be needed.''"

definition summarize_result :: "lower_table \<Rightarrow> pystr \<Rightarrow> pystr" where
  "summarize_result U output =
     (if py_in (ascii ''error'') (py_lower U output) then errors_detected
      else if py_in (ascii ''success'') (py_lower U output)
              \<or> py_in (ascii ''started'') (py_lower U output) then appears_running
      else manual_verification)"

subsection \<open>\<open>install_from_llm_script\<close>\<close>

definition installation_report :: "pystr \<Rightarrow> pystr \<Rightarrow> pystr" where
  "installation_report result summary =
     join nl [ascii ''=== Installation Result ==='', result, [], ascii ''=== Summary ==='', summary]"

definition install_from_llm_script :: "env \<Rightarrow> pystr \<Rightarrow> bool \<Rightarrow> world \<Rightarrow> pystr \<times> world" where
  "install_from_llm_script e script_text ctx w =
     (case validate_script script_text ctx w of
        (validation, w1) \<Rightarrow>
          if py_in cross_mark validation then (validation, w1)
          else (case run_install_script e script_text ctx w1 of
                  (result, w2) \<Rightarrow>
                    (installation_report result (summarize_result (unicode_lower e) result), w2)))"

section \<open>\<open>check_compatibility\<close>\<close>

text \<open>\<open>not system\<close> holds for \<open>None\<close> and for the empty string.\<close>

definition supplied :: "pystr option \<Rightarrow> pystr option" where
  "supplied system = (case system of None \<Rightarrow> None | Some s \<Rightarrow> if s = [] then None else Some s)"

definition compatibility :: "(pystr \<times> pystr list) list" where
  "compatibility =
     [(ascii ''docker'', map ascii [''Ubuntu'', ''Debian'', ''Rocky'', ''CentOS'', ''MacOS'', ''Windows'']),
      (ascii ''teleport'', map ascii [''Linux'', ''MacOS'', ''Windows'']),
      (ascii ''netbox'', map ascii [''Ubuntu'', ''Debian'', ''Rocky''])]"

definition macos_note :: pystr where
  "macos_note =
     nl @ warning_sign @ ascii '' Note: Some modern tools may not support MacOS 10.x or older versions.''"

definition compatibility_report :: "pystr \<Rightarrow> pystr \<Rightarrow> pystr list \<Rightarrow> pystr \<Rightarrow> pystr \<Rightarrow> pystr" where
  "compatibility_report component system supported release version =
     (let status = (if system \<in> set supported then ascii ''compatible''
                    else ascii ''unknown or unverified'');
          response =
            [component @ ascii '' is '' @ status @ ascii '' with '' @ system @ ascii ''.'',
             [],
             ascii ''System detected:'',
             ascii ''- OS: '' @ system,
             ascii ''- Release: '' @ release,
             ascii ''- Version: '' @ version]
      in join nl (if system = ascii ''MacOS'' \<and> startswith release (ascii ''10.'')
                  then response @ [macos_note] else response))"

text \<open>The tool of \<open>morphogen_mcp.py\<close>.\<close>

definition check_compatibility ::
    "lower_table \<Rightarrow> host \<Rightarrow> pystr \<Rightarrow> pystr option \<Rightarrow> bool \<Rightarrow> world \<Rightarrow> pystr \<times> world" where
  "check_compatibility U h component system ctx w =
     (let raw_system = platform_system h;
          release = platform_release h;
          version = platform_version h;
          system = (case supplied system of
                      None \<Rightarrow> if raw_system = ascii ''Darwin'' then ascii ''MacOS'' else raw_system
                    | Some s \<Rightarrow> s);
          w1 = info ctx (ascii ''Checking compatibility for '' @ component @ ascii '' on '' @ system) w;
          supported = (case map_of compatibility (py_lower U component) of
                         Some l \<Rightarrow> l | None \<Rightarrow> [])
      in (compatibility_report component system supported release version, w1))"




section \<open>Permission bits\<close>

text \<open>
  A file mode is three octal digits, for the owner, the group and the others; in a digit,
  4 grants reading, 2 writing and 1 executing.
\<close>

definition owner_digit :: "nat \<Rightarrow> nat" where
  "owner_digit m = m div 64 mod 8"

definition group_digit :: "nat \<Rightarrow> nat" where
  "group_digit m = m div 8 mod 8"

definition other_digit :: "nat \<Rightarrow> nat" where
  "other_digit m = m mod 8"

definition may_read :: "nat \<Rightarrow> bool" where
  "may_read d = (d div 4 mod 2 = 1)"

definition may_write :: "nat \<Rightarrow> bool" where
  "may_write d = (d div 2 mod 2 = 1)"

definition may_exec :: "nat \<Rightarrow> bool" where
  "may_exec d = (d mod 2 = 1)"

section \<open>Concrete surroundings\<close>

text \<open>
  A host on which every call succeeds and the script \<open>echo hello\<close> prints its line;
  the variations below change one answer each. \<open>plain_lower\<close> is a Unicode table
  that leaves the characters beyond ASCII as they are.
\<close>

definition plain_lower :: lower_table where
  "plain_lower pre c rest = [c]"

definition world0 :: world where
  "world0 = \<lparr>files = Map.empty, spawned = [], removed = [], infos = []\<rparr>"

definition str_exn0 :: "exn \<Rightarrow> pystr" where
  \<comment> \<open>the texts CPython gives for a missing \<open>bash\<close> and for the byte FF at position 0\<close>
  "str_exn0 x =
     (case x of
        OSError n \<Rightarrow>
          ascii ''[Errno '' @ str_nat n @ ascii ''] No such file or directory: ''
            @ [39] @ ascii ''bash'' @ [39]
      | UnicodeDecodeError \<Rightarrow>
          [39] @ ascii ''utf-8'' @ [39] @ ascii '' codec can'' @ [39]
            @ ascii ''t decode byte 0xff in position 0: invalid start byte'')"

definition env_hello :: env where
  "env_hello =
     \<lparr>tmp_name = Inr (ascii ''/tmp/tmpk3v9x2qa''),
      tmp_write = None,
      chmod_raises = None,
      spawn_raises = None,
      communicate = Inr ([104, 101, 108, 108, 111, 10], [], 0),
      remove_raises = None,
      str_exn = str_exn0,
      unicode_lower = plain_lower\<rparr>"

definition env_no_bash :: env where
  \<comment> \<open>no \<open>bash\<close> on the path: spawning raises \<open>FileNotFoundError\<close> (errno 2)\<close>
  "env_no_bash = env_hello\<lparr>spawn_raises := Some (OSError 2)\<rparr>"

definition env_xff :: env where
  \<comment> \<open>the child writes the single byte FF to its standard output\<close>
  "env_xff = env_hello\<lparr>communicate := Inr ([255], [], 0)\<rparr>"

definition env_exit1 :: env where
  \<comment> \<open>the child exits with code 1 and no output\<close>
  "env_exit1 = env_hello\<lparr>communicate := Inr ([], [], 1)\<rparr>"

definition script_xff :: pystr where
  \<comment> \<open>the script \<open>printf\<close> with the format backslash 377 in single quotes: it prints the byte FF\<close>
  "script_xff = ascii ''printf '' @ [39, 92] @ ascii ''377'' @ [39]"




section \<open>Strings\<close>

lemma startswith_prefix: "startswith s p \<longleftrightarrow> prefix p s"
  by (induction s p rule: startswith.induct) auto

lemma py_in_sublist: "py_in p s \<longleftrightarrow> sublist p s"
  by (induction s) (auto simp: startswith_prefix sublist_Cons_right)

section \<open>The validator and the gate of the orchestrator\<close>

lemma first_bad_find: "first_bad bl s = find (\<lambda>bad. sublist bad s) bl"
  by (induction bl) (auto simp: py_in_sublist)

lemma first_bad_None: "first_bad bl s = None \<longleftrightarrow> (\<forall>bad\<in>set bl. \<not> sublist bad s)"
  by (auto simp: first_bad_find find_None_iff)

lemma first_bad_Some:
  "first_bad bl s = Some bad \<longleftrightarrow>
     (\<exists>i<length bl. bl ! i = bad \<and> sublist bad s \<and> (\<forall>j<i. \<not> sublist (bl ! j) s))"
  by (auto simp: first_bad_find find_Some_iff)

lemma cross_in_unsafe: "py_in cross_mark (unsafe_message bad)"
  by (simp add: cross_mark_def unsafe_message_def)

lemma cross_not_in_passed: "\<not> py_in cross_mark passed_message"
  by (simp add: cross_mark_def passed_message_def check_mark_def ascii_def)

text \<open>
  The two texts \<open>validate_script\<close> returns, character by character. The rejection
  holds the entry it is given, between two backticks, and two different entries give
  two different rejections.
\<close>

lemma unsafe_message_text:
  "unsafe_message bad =
     [10060] @ ascii '' Detected unsafe command: '' @ [96] @ bad @ [96, 10]
       @ ascii ''Aborting installation.''"
  by (simp add: unsafe_message_def cross_mark_def backtick_def nl_def)

lemma passed_message_text: "passed_message = [9989] @ ascii '' Script passed basic validation.''"
  by (simp add: passed_message_def check_mark_def)

lemma inj_unsafe_message: "inj unsafe_message"
  by (simp add: inj_def unsafe_message_def)

lemma unsafe_message_names: "sublist bad (unsafe_message bad)"
proof -
  have "unsafe_message bad =
      (cross_mark @ ascii '' Detected unsafe command: '' @ backtick) @ bad
        @ (backtick @ nl @ ascii ''Aborting installation.'')"
    by (simp add: unsafe_message_def)
  then show ?thesis unfolding sublist_def by blast
qed

lemma unsafe_not_passed: "unsafe_message bad \<noteq> passed_message"
  by (simp add: unsafe_message_def passed_message_def cross_mark_def check_mark_def)

text \<open>
  Claim C3. \<open>validate_script\<close> answers with the rejection that names the first entry of
  the denylist, in the order of its declaration, that occurs in the script as a
  contiguous substring: the cross mark, \<open>Detected unsafe command:\<close>, that entry between
  backticks, a line break and \<open>Aborting installation.\<close> When no entry occurs, it answers
  with the check mark and \<open>Script passed basic validation.\<close> The rejection holds the entry
  it names, differs for different entries, and is never the acceptance.
\<close>

theorem validate_script_first_match:
  "(\<forall>i<length blacklist.
      sublist (blacklist ! i) s \<and> (\<forall>j<i. \<not> sublist (blacklist ! j) s) \<longrightarrow>
      fst (validate_script s ctx w) = unsafe_message (blacklist ! i)
      \<and> fst (validate_script s ctx w) =
          [10060] @ ascii '' Detected unsafe command: '' @ [96] @ blacklist ! i @ [96, 10]
            @ ascii ''Aborting installation.'')
   \<and> ((\<forall>bad\<in>set blacklist. \<not> sublist bad s) \<longrightarrow>
        fst (validate_script s ctx w) = passed_message
        \<and> fst (validate_script s ctx w) = [9989] @ ascii '' Script passed basic validation.'')
   \<and> blacklist = [ascii ''rm -rf /'', ascii ''shutdown'', ascii ''reboot'',
        ascii '':(){ :|:& };:'', ascii ''mkfs'', ascii ''dd if='']
   \<and> inj unsafe_message
   \<and> (\<forall>bad. sublist bad (unsafe_message bad))
   \<and> (\<forall>bad. unsafe_message bad \<noteq> passed_message)"
proof (intro conjI allI impI)
  fix i
  assume i: "i < length blacklist"
    and h: "sublist (blacklist ! i) s \<and> (\<forall>j<i. \<not> sublist (blacklist ! j) s)"
  then have "first_bad blacklist s = Some (blacklist ! i)"
    unfolding first_bad_Some by blast
  then show r: "fst (validate_script s ctx w) = unsafe_message (blacklist ! i)"
    by (simp add: validate_script_def)
  show "fst (validate_script s ctx w) =
          [10060] @ ascii '' Detected unsafe command: '' @ [96] @ blacklist ! i @ [96, 10]
            @ ascii ''Aborting installation.''"
    unfolding r by (rule unsafe_message_text)
next
  assume "\<forall>bad\<in>set blacklist. \<not> sublist bad s"
  then have "first_bad blacklist s = None"
    by (simp add: first_bad_None)
  then show r: "fst (validate_script s ctx w) = passed_message"
    by (simp add: validate_script_def)
  show "fst (validate_script s ctx w) = [9989] @ ascii '' Script passed basic validation.''"
    unfolding r by (rule passed_message_text)
next
  show "blacklist = [ascii ''rm -rf /'', ascii ''shutdown'', ascii ''reboot'',
        ascii '':(){ :|:& };:'', ascii ''mkfs'', ascii ''dd if='']"
    by (simp add: blacklist_def)
next
  show "inj unsafe_message" by (rule inj_unsafe_message)
next
  fix bad
  show "sublist bad (unsafe_message bad)" by (rule unsafe_message_names)
next
  fix bad
  show "unsafe_message bad \<noteq> passed_message" by (rule unsafe_not_passed)
qed

text \<open>
  In \<open>sudo reboot; shutdown now\<close> the word \<open>reboot\<close> stands first in the text, but
  \<open>shutdown\<close> stands first in the denylist, and is the one named.
\<close>

theorem validate_script_first_match_witness:
  "fst (validate_script (ascii ''sudo reboot; shutdown now'') False world0)
     = [10060] @ ascii '' Detected unsafe command: '' @ [96] @ ascii ''shutdown'' @ [96, 10]
         @ ascii ''Aborting installation.''
   \<and> fst (validate_script (ascii ''sudo reboot; shutdown now'') False world0)
     \<noteq> unsafe_message (ascii ''reboot'')
   \<and> fst (validate_script (ascii ''echo hello'') False world0)
     = [9989] @ ascii '' Script passed basic validation.''"
proof -
  note T = validate_script_first_match [of "ascii ''sudo reboot; shutdown now''" False world0]
  note P = validate_script_first_match [of "ascii ''echo hello''" False world0]
  have a: "(1::nat) < length blacklist" by (simp add: blacklist_def)
  have b: "sublist (blacklist ! 1) (ascii ''sudo reboot; shutdown now'')
      \<and> (\<forall>j<1. \<not> sublist (blacklist ! j) (ascii ''sudo reboot; shutdown now''))"
    by (simp add: py_in_sublist [symmetric] blacklist_def ascii_def)
  have c: "\<forall>bad\<in>set blacklist. \<not> sublist bad (ascii ''echo hello'')"
    by (simp add: py_in_sublist [symmetric] blacklist_def ascii_def)
  have d: "blacklist ! 1 = ascii ''shutdown''" by (simp add: blacklist_def)
  note r = T [THEN conjunct1, rule_format, OF a b]
  from r [THEN conjunct2] d
  have 1: "fst (validate_script (ascii ''sudo reboot; shutdown now'') False world0)
     = [10060] @ ascii '' Detected unsafe command: '' @ [96] @ ascii ''shutdown'' @ [96, 10]
         @ ascii ''Aborting installation.''"
    by simp
  have "ascii ''shutdown'' \<noteq> ascii ''reboot''" by (simp add: ascii_def)
  with T [THEN conjunct2, THEN conjunct2, THEN conjunct2, THEN conjunct1]
  have "unsafe_message (ascii ''shutdown'') \<noteq> unsafe_message (ascii ''reboot'')"
    by (simp add: inj_eq)
  with r [THEN conjunct1] d
  have 2: "fst (validate_script (ascii ''sudo reboot; shutdown now'') False world0)
     \<noteq> unsafe_message (ascii ''reboot'')"
    by simp
  from P [THEN conjunct2, THEN conjunct1, THEN mp, OF c, THEN conjunct2]
  have 3: "fst (validate_script (ascii ''echo hello'') False world0)
     = [9989] @ ascii '' Script passed basic validation.''"
    by simp
  from 1 2 3 show ?thesis by simp
qed

lemma validate_rejects:
  "\<exists>bad\<in>set blacklist. sublist bad s \<Longrightarrow>
     \<exists>bad\<in>set blacklist. validate_script s ctx w = (unsafe_message bad, w)"
proof -
  assume "\<exists>bad\<in>set blacklist. sublist bad s"
  then have "first_bad blacklist s \<noteq> None" by (simp add: first_bad_None)
  then obtain bad where b: "first_bad blacklist s = Some bad" by blast
  then have "bad \<in> set blacklist" unfolding first_bad_Some by auto
  with b show ?thesis by (auto simp: validate_script_def)
qed

lemma validate_accepts:
  "\<not> (\<exists>bad\<in>set blacklist. sublist bad s) \<Longrightarrow>
     validate_script s ctx w = (passed_message, info ctx (ascii ''Script validated successfully.'') w)"
  using first_bad_None [of blacklist s] by (simp add: validate_script_def)

text \<open>
  Claim C2. When a denylisted substring occurs in the script, \<open>install_from_llm_script\<close>
  returns the rejection of \<open>validate_script\<close> and leaves the surroundings as they were:
  no file is written and no child is spawned.
\<close>

theorem install_rejected_runs_nothing:
  assumes "\<exists>bad\<in>set blacklist. sublist bad s"
  shows "install_from_llm_script e s ctx w = (fst (validate_script s ctx w), w)
    \<and> (\<exists>bad\<in>set blacklist. fst (validate_script s ctx w) = unsafe_message bad)
    \<and> files (snd (install_from_llm_script e s ctx w)) = files w
    \<and> spawned (snd (install_from_llm_script e s ctx w)) = spawned w"
proof -
  from validate_rejects [OF assms] obtain bad
    where b: "bad \<in> set blacklist" "validate_script s ctx w = (unsafe_message bad, w)" by blast
  then have "install_from_llm_script e s ctx w = (unsafe_message bad, w)"
    by (simp add: install_from_llm_script_def cross_in_unsafe)
  with b show ?thesis by auto
qed

theorem install_rejected_runs_nothing_witness:
  "install_from_llm_script env_hello (ascii ''rm -rf /'') True world0
     = (unsafe_message (ascii ''rm -rf /''), world0)
   \<and> spawned (snd (install_from_llm_script env_hello (ascii ''rm -rf /'') True world0)) = []
   \<and> files (snd (install_from_llm_script env_hello (ascii ''rm -rf /'') True world0))
         (ascii ''/tmp/tmpk3v9x2qa.sh'') = None"
proof -
  have a: "\<exists>bad\<in>set blacklist. sublist bad (ascii ''rm -rf /'')"
    by (simp add: py_in_sublist [symmetric] blacklist_def ascii_def)
  have v: "fst (validate_script (ascii ''rm -rf /'') True world0) = unsafe_message (ascii ''rm -rf /'')"
    by (simp add: validate_script_def blacklist_def ascii_def)
  from install_rejected_runs_nothing [OF a, of env_hello True world0] v
  show ?thesis by (simp add: world0_def)
qed

text \<open>
  Claim C9. The cross mark occurs in the text \<open>validate_script\<close> returns exactly when a
  denylisted substring occurs in the script, and the acceptance message has no cross
  mark; so \<open>install_from_llm_script\<close> returns the rejection in the one case and goes on
  to \<open>run_install_script\<close> in the other.
\<close>

theorem gate_iff_rejected:
  "(py_in cross_mark (fst (validate_script s ctx w)) \<longleftrightarrow> (\<exists>bad\<in>set blacklist. sublist bad s))
   \<and> \<not> py_in cross_mark passed_message
   \<and> install_from_llm_script e s ctx w =
       (if \<exists>bad\<in>set blacklist. sublist bad s then validate_script s ctx w
        else case run_install_script e s ctx (snd (validate_script s ctx w)) of
               (result, w2) \<Rightarrow>
                 (installation_report result (summarize_result (unicode_lower e) result), w2))"
proof (cases "\<exists>bad\<in>set blacklist. sublist bad s")
  case True
  from validate_rejects [OF True] obtain bad
    where "validate_script s ctx w = (unsafe_message bad, w)" by blast
  with True show ?thesis
    by (simp add: install_from_llm_script_def cross_in_unsafe cross_not_in_passed)
next
  case False
  from validate_accepts [OF False]
  have "validate_script s ctx w = (passed_message, info ctx (ascii ''Script validated successfully.'') w)" .
  with False show ?thesis
    by (simp add: install_from_llm_script_def cross_not_in_passed)
qed

theorem gate_iff_rejected_witness:
  "py_in cross_mark (fst (validate_script (ascii ''mkfs.ext4 /dev/sda'') False world0))
   \<and> \<not> py_in cross_mark (fst (validate_script (ascii ''echo hello'') False world0))
   \<and> install_from_llm_script env_hello (ascii ''mkfs.ext4 /dev/sda'') False world0
       = validate_script (ascii ''mkfs.ext4 /dev/sda'') False world0
   \<and> fst (install_from_llm_script env_hello (ascii ''echo hello'') False world0)
       = installation_report (succeeded_report (ascii ''hello'')) manual_verification"
proof -
  have a: "\<exists>bad\<in>set blacklist. sublist bad (ascii ''mkfs.ext4 /dev/sda'')"
    by (simp add: py_in_sublist [symmetric] blacklist_def ascii_def)
  have b: "\<not> (\<exists>bad\<in>set blacklist. sublist bad (ascii ''echo hello''))"
    by (simp add: py_in_sublist [symmetric] blacklist_def ascii_def)
  have r: "fst (run_install_script env_hello (ascii ''echo hello'') False
             (snd (validate_script (ascii ''echo hello'') False world0)))
           = succeeded_report (ascii ''hello'')"
    by (simp add: run_install_script_def try_body_def materialize_def execute_def env_hello_def
        info_def validate_script_def blacklist_def utf8_decode_def strip_def isspace_def ascii_def
        is_cont_def Let_def)
  have s: "summarize_result (unicode_lower env_hello) (succeeded_report (ascii ''hello''))
           = manual_verification"
    by (simp add: summarize_result_def env_hello_def py_lower_def plain_lower_def
        succeeded_report_def check_mark_def nl_def ascii_def ascii_lower_def)
  from gate_iff_rejected [of "ascii ''mkfs.ext4 /dev/sda''" False world0 env_hello] a
  have 1: "py_in cross_mark (fst (validate_script (ascii ''mkfs.ext4 /dev/sda'') False world0))"
    and 3: "install_from_llm_script env_hello (ascii ''mkfs.ext4 /dev/sda'') False world0
       = validate_script (ascii ''mkfs.ext4 /dev/sda'') False world0"
    by simp_all
  from gate_iff_rejected [of "ascii ''echo hello''" False world0 env_hello] b
  have 2: "\<not> py_in cross_mark (fst (validate_script (ascii ''echo hello'') False world0))"
    and 4: "install_from_llm_script env_hello (ascii ''echo hello'') False world0 =
        (case run_install_script env_hello (ascii ''echo hello'') False
                (snd (validate_script (ascii ''echo hello'') False world0)) of
               (result, w2) \<Rightarrow>
                 (installation_report result (summarize_result (unicode_lower env_hello) result), w2))"
    by simp_all
  from 4 r s have "fst (install_from_llm_script env_hello (ascii ''echo hello'') False world0)
       = installation_report (succeeded_report (ascii ''hello'')) manual_verification"
    by (simp add: split_beta)
  with 1 2 3 show ?thesis by simp
qed

section \<open>The classifier\<close>

lemma lower_from_skip:
  "\<exists>X. lower_from U pre (a @ r) = X @ lower_from U (pre @ a) r"
proof (induction a arbitrary: pre)
  case Nil
  show ?case by simp
next
  case (Cons c a)
  from Cons [of "pre @ [c]"] obtain X
    where "lower_from U (pre @ [c]) (a @ r) = X @ lower_from U (pre @ c # a) r" by auto
  then show ?case by simp
qed

lemma lower_from_ascii:
  "\<forall>c\<in>set v. c < 128 \<Longrightarrow>
     lower_from U pre (v @ r) = map ascii_lower v @ lower_from U (pre @ v) r"
  by (induction v arbitrary: pre) auto

lemma ascii_lower_small: "ascii_lower c < 128 \<Longrightarrow> c < 128"
  by (auto simp: ascii_lower_def split: if_splits)

lemma py_lower_variant:
  assumes "map ascii_lower v = kw" and "\<forall>c\<in>set kw. c < 128"
  shows "py_in kw (py_lower U (a @ v @ b))"
proof -
  from assms have "\<forall>c\<in>set v. c < 128"
    by (auto intro: ascii_lower_small)
  then have v: "lower_from U a (v @ b) = kw @ lower_from U (a @ v) b"
    using assms(1) by (simp add: lower_from_ascii)
  from lower_from_skip [of U "[]" a "v @ b"] obtain X
    where "lower_from U [] (a @ v @ b) = X @ lower_from U a (v @ b)" by auto
  with v have "py_lower U (a @ v @ b) = X @ kw @ lower_from U (a @ v) b"
    by (simp add: py_lower_def)
  then show ?thesis
    unfolding py_in_sublist sublist_def by blast
qed

lemma messages_distinct:
  "errors_detected \<noteq> appears_running" "errors_detected \<noteq> manual_verification"
  "appears_running \<noteq> manual_verification"
  by (simp_all add: errors_detected_def appears_running_def manual_verification_def
      warning_sign_def check_mark_def info_sign_def)

text \<open>
  Claim C4. \<open>summarize_result\<close> looks for \<open>error\<close> first, in the lower-cased text: when
  it is there the answer is the message about errors, whatever else the text holds;
  \<open>success\<close> and \<open>started\<close> count only when \<open>error\<close> is absent; a text with none of
  the three gets the message asking for manual verification. A text holding \<open>error\<close>
  in any mix of capital and small ASCII letters is one that holds it after
  lower-casing. The three messages differ from each other.
\<close>

theorem summarize_result_error_first:
  "(py_in (ascii ''error'') (py_lower U t) \<longrightarrow> summarize_result U t = errors_detected)
   \<and> (\<not> py_in (ascii ''error'') (py_lower U t)
        \<and> (py_in (ascii ''success'') (py_lower U t) \<or> py_in (ascii ''started'') (py_lower U t))
       \<longrightarrow> summarize_result U t = appears_running)
   \<and> (\<not> py_in (ascii ''error'') (py_lower U t)
        \<and> \<not> py_in (ascii ''success'') (py_lower U t) \<and> \<not> py_in (ascii ''started'') (py_lower U t)
       \<longrightarrow> summarize_result U t = manual_verification)
   \<and> (\<forall>a v b. map ascii_lower v = ascii ''error'' \<longrightarrow>
         summarize_result U (a @ v @ b) = errors_detected)
   \<and> errors_detected \<noteq> appears_running \<and> errors_detected \<noteq> manual_verification
   \<and> appears_running \<noteq> manual_verification"
proof -
  have "summarize_result U (a @ v @ b) = errors_detected"
    if "map ascii_lower v = ascii ''error''" for a v b
  proof -
    have "\<forall>c\<in>set (ascii ''error''). c < 128" by (simp add: ascii_def)
    from py_lower_variant [OF that this] show ?thesis
      by (simp add: summarize_result_def)
  qed
  then show ?thesis
    using messages_distinct by (simp add: summarize_result_def)
qed

theorem summarize_result_error_first_witness:
  "summarize_result plain_lower (ascii ''Service started. SUCCESS! 1 Error ignored'') = errors_detected
   \<and> summarize_result plain_lower (ascii ''Service Started'') = appears_running
   \<and> summarize_result plain_lower (ascii ''hello'') = manual_verification"
proof -
  have e: "ascii ''Service started. SUCCESS! 1 Error ignored''
      = ascii ''Service started. SUCCESS! 1 '' @ ascii ''Error'' @ ascii '' ignored''"
    by (simp add: ascii_def)
  have v: "map ascii_lower (ascii ''Error'') = ascii ''error''"
    by (simp add: ascii_def ascii_lower_def)
  from summarize_result_error_first [of plain_lower "ascii ''Service started. SUCCESS! 1 Error ignored''"] v e
  have 1: "summarize_result plain_lower (ascii ''Service started. SUCCESS! 1 Error ignored'') = errors_detected"
    by metis
  have s: "\<not> py_in (ascii ''error'') (py_lower plain_lower (ascii ''Service Started''))
        \<and> (py_in (ascii ''success'') (py_lower plain_lower (ascii ''Service Started''))
            \<or> py_in (ascii ''started'') (py_lower plain_lower (ascii ''Service Started'')))"
    by (simp add: py_lower_def ascii_def ascii_lower_def)
  from summarize_result_error_first [of plain_lower "ascii ''Service Started''"] s
  have 2: "summarize_result plain_lower (ascii ''Service Started'') = appears_running"
    by blast
  have h: "\<not> py_in (ascii ''error'') (py_lower plain_lower (ascii ''hello''))
        \<and> \<not> py_in (ascii ''success'') (py_lower plain_lower (ascii ''hello''))
        \<and> \<not> py_in (ascii ''started'') (py_lower plain_lower (ascii ''hello''))"
    by (simp add: py_lower_def ascii_def ascii_lower_def)
  from summarize_result_error_first [of plain_lower "ascii ''hello''"] h
  have 3: "summarize_result plain_lower (ascii ''hello'') = manual_verification"
    by blast
  from 1 2 3 show ?thesis by simp
qed

section \<open>The report of the exception handler\<close>

lemma error_report_has_error: "py_in (ascii ''error'') (py_lower U (error_report m))"
proof -
  have "error_report m = (cross_mark @ [32]) @ ascii ''Error'' @ (ascii '' during installation: '' @ m)"
    by (simp add: error_report_def ascii_def)
  moreover have "map ascii_lower (ascii ''Error'') = ascii ''error''"
    by (simp add: ascii_def ascii_lower_def)
  moreover have "\<forall>c\<in>set (ascii ''error''). c < 128" by (simp add: ascii_def)
  ultimately show ?thesis
    using py_lower_variant by metis
qed

lemma error_report_prefix:
  "startswith (error_report m) (cross_mark @ ascii '' Error during installation'')"
  by (simp add: error_report_def cross_mark_def ascii_def startswith_prefix)

text \<open>The texts of the handler's report, of the summary and of the joined report.\<close>

lemma installation_report_text:
  "installation_report result summary =
     ascii ''=== Installation Result ==='' @ [10] @ result @ [10, 10]
       @ ascii ''=== Summary ==='' @ [10] @ summary"
  by (simp add: installation_report_def nl_def)

lemma error_report_text:
  "error_report msg = [10060] @ ascii '' Error during installation: '' @ msg"
  by (simp add: error_report_def cross_mark_def)

lemma errors_detected_text:
  "errors_detected = [9888, 65039] @ ascii '' Some errors were detected during installation.''"
  by (simp add: errors_detected_def warning_sign_def)

text \<open>
  Claim C10. \<open>install_from_llm_script\<close> classifies the report \<open>run_install_script\<close>
  returns, not the output of the child: its text is the heading of the result, that
  report, an empty line, the heading of the summary and the classification of that
  report. When the body of the \<open>try\<close> raises, the report is the cross mark followed by
  \<open>Error during installation:\<close> and the text of the exception; it holds \<open>error\<close> once
  lower-cased, so the summary section of the returned text is the message about
  errors.
\<close>

theorem handler_report_classified_as_error:
  assumes "\<not> (\<exists>bad\<in>set blacklist. sublist bad s)"
    and "w1 = snd (validate_script s ctx w)"
    and "fst (try_body e s ctx
               (info ctx (ascii ''Writing install script to temporary file...'') w1)) = Inl x"
  shows "fst (run_install_script e s ctx w1) = error_report (str_exn e x)
    \<and> startswith (error_report (str_exn e x)) (cross_mark @ ascii '' Error during installation'')
    \<and> summarize_result (unicode_lower e) (error_report (str_exn e x)) = errors_detected
    \<and> fst (install_from_llm_script e s ctx w)
        = installation_report (error_report (str_exn e x)) errors_detected
    \<and> fst (run_install_script e s ctx w1)
        = [10060] @ ascii '' Error during installation: '' @ str_exn e x
    \<and> fst (install_from_llm_script e s ctx w)
        = ascii ''=== Installation Result ==='' @ [10]
          @ [10060] @ ascii '' Error during installation: '' @ str_exn e x @ [10, 10]
          @ ascii ''=== Summary ==='' @ [10]
          @ [9888, 65039] @ ascii '' Some errors were detected during installation.''
    \<and> fst (install_from_llm_script e s ctx w)
        = ascii ''=== Installation Result ==='' @ [10]
          @ fst (run_install_script e s ctx w1) @ [10, 10]
          @ ascii ''=== Summary ==='' @ [10]
          @ summarize_result (unicode_lower e) (fst (run_install_script e s ctx w1))"
proof -
  from assms(3) have r: "fst (run_install_script e s ctx w1) = error_report (str_exn e x)"
    by (auto simp: run_install_script_def split: prod.splits sum.splits)
  have c: "summarize_result (unicode_lower e) (error_report (str_exn e x)) = errors_detected"
    by (simp add: summarize_result_def error_report_has_error)
  from validate_accepts [OF assms(1), of ctx w] assms(2)
  have v: "validate_script s ctx w = (passed_message, w1)" by simp
  have i: "fst (install_from_llm_script e s ctx w)
        = installation_report (error_report (str_exn e x)) errors_detected"
    using r c v by (simp add: install_from_llm_script_def cross_not_in_passed split_beta)
  have t: "installation_report (error_report (str_exn e x)) errors_detected
        = ascii ''=== Installation Result ==='' @ [10]
          @ [10060] @ ascii '' Error during installation: '' @ str_exn e x @ [10, 10]
          @ ascii ''=== Summary ==='' @ [10]
          @ [9888, 65039] @ ascii '' Some errors were detected during installation.''"
    by (simp add: installation_report_text error_report_text errors_detected_text)
  have u: "installation_report (error_report (str_exn e x)) errors_detected
        = ascii ''=== Installation Result ==='' @ [10]
          @ fst (run_install_script e s ctx w1) @ [10, 10]
          @ ascii ''=== Summary ==='' @ [10]
          @ summarize_result (unicode_lower e) (fst (run_install_script e s ctx w1))"
    unfolding r c by (rule installation_report_text)
  from r c i t u error_report_prefix [of "str_exn e x"] error_report_text [of "str_exn e x"]
  show ?thesis by (simp only: simp_thms)
qed

theorem handler_report_classified_as_error_witness:
  "fst (install_from_llm_script env_no_bash (ascii ''echo hello'') False world0)
     = ascii ''=== Installation Result ==='' @ [10]
       @ [10060] @ ascii '' Error during installation: '' @ str_exn0 (OSError 2) @ [10, 10]
       @ ascii ''=== Summary ==='' @ [10]
       @ [9888, 65039] @ ascii '' Some errors were detected during installation.''"
proof -
  have a: "\<not> (\<exists>bad\<in>set blacklist. sublist bad (ascii ''echo hello''))"
    by (simp add: py_in_sublist [symmetric] blacklist_def ascii_def)
  have b: "fst (try_body env_no_bash (ascii ''echo hello'') False
               (info False (ascii ''Writing install script to temporary file...'')
                  (snd (validate_script (ascii ''echo hello'') False world0)))) = Inl (OSError 2)"
    by (simp add: try_body_def materialize_def execute_def env_no_bash_def env_hello_def
        info_def Let_def)
  have c: "str_exn env_no_bash = str_exn0"
    by (simp add: env_no_bash_def env_hello_def)
  note T = handler_report_classified_as_error [OF a refl b]
  from T [THEN conjunct2, THEN conjunct2, THEN conjunct2, THEN conjunct2, THEN conjunct2,
      THEN conjunct1] c
  show ?thesis by simp
qed

section \<open>Spawning\<close>

lemma info_spawned: "spawned (info ctx m w) = spawned w"
  by (simp add: info_def)

lemma materialize_spawned: "spawned (snd (materialize e s w)) = spawned w"
  by (simp add: materialize_def Let_def split: sum.splits option.splits prod.splits)

lemma execute_spawned:
  "spawned (snd (execute e p w)) = spawned w
   \<or> spawned (snd (execute e p w)) = spawned w @ [[ascii ''bash'', p]]"
  by (simp add: execute_def Let_def split: sum.splits option.splits prod.splits)

lemma try_body_spawned:
  "spawned (snd (try_body e s ctx w)) = spawned w
   \<or> (\<exists>p. spawned (snd (try_body e s ctx w)) = spawned w @ [[ascii ''bash'', p]])"
proof (cases "materialize e s w")
  case (Pair r w1)
  then have w1: "spawned w1 = spawned w"
    using materialize_spawned [of e s w] by simp
  show ?thesis
  proof (cases r)
    case (Inl x)
    with Pair w1 show ?thesis by (simp add: try_body_def)
  next
    case (Inr p)
    with Pair w1 execute_spawned [of e p "info ctx (ascii ''Executing install script: '' @ p) w1"]
    show ?thesis by (auto simp: try_body_def info_spawned)
  qed
qed

lemma run_install_script_spawned:
  "spawned (snd (run_install_script e s ctx w)) = spawned w
   \<or> (\<exists>p. spawned (snd (run_install_script e s ctx w)) = spawned w @ [[ascii ''bash'', p]])"
  using try_body_spawned [of e s ctx "info ctx (ascii ''Writing install script to temporary file...'') w"]
  by (auto simp: run_install_script_def info_spawned split: prod.splits sum.splits)

lemma validate_script_spawned: "spawned (snd (validate_script s ctx w)) = spawned w"
  by (simp add: validate_script_def info_spawned split: option.splits)

lemma install_spawned:
  "spawned (snd (install_from_llm_script e s ctx w)) = spawned w
   \<or> (\<exists>p. spawned (snd (install_from_llm_script e s ctx w)) = spawned w @ [[ascii ''bash'', p]])"
proof (cases "validate_script s ctx w")
  case (Pair v w1)
  then have w1: "spawned w1 = spawned w"
    using validate_script_spawned [of s ctx w] by simp
  with Pair run_install_script_spawned [of e s ctx w1] show ?thesis
    by (auto simp: install_from_llm_script_def split: prod.splits)
qed

text \<open>
  Claim C7. One call of \<open>run_install_script\<close> or of \<open>install_from_llm_script\<close> adds at
  most one child to those already spawned, on every path: there is no retry.
\<close>

theorem spawns_at_most_once:
  "prefix (spawned w) (spawned (snd (run_install_script e s ctx w)))
   \<and> length (spawned (snd (run_install_script e s ctx w))) \<le> length (spawned w) + 1
   \<and> prefix (spawned w) (spawned (snd (install_from_llm_script e s ctx w)))
   \<and> length (spawned (snd (install_from_llm_script e s ctx w))) \<le> length (spawned w) + 1"
  using run_install_script_spawned [of e s ctx w] install_spawned [of e s ctx w]
  by auto

theorem spawns_at_most_once_witness:
  "spawned (snd (run_install_script env_exit1 (ascii ''exit 1'') False world0))
     = [[ascii ''bash'', ascii ''/tmp/tmpk3v9x2qa.sh'']]
   \<and> spawned (snd (run_install_script env_no_bash (ascii ''echo hello'') False world0)) = []
   \<and> length (spawned (snd (install_from_llm_script env_exit1 (ascii ''exit 1'') False world0))) \<le> 1"
proof -
  have 1: "spawned (snd (run_install_script env_exit1 (ascii ''exit 1'') False world0))
     = [[ascii ''bash'', ascii ''/tmp/tmpk3v9x2qa.sh'']]"
    by (simp add: run_install_script_def try_body_def materialize_def execute_def env_exit1_def
        env_hello_def info_def utf8_decode_def Let_def world0_def ascii_def)
  have 2: "spawned (snd (run_install_script env_no_bash (ascii ''echo hello'') False world0)) = []"
    by (simp add: run_install_script_def try_body_def materialize_def execute_def env_no_bash_def
        env_hello_def info_def Let_def world0_def)
  from spawns_at_most_once [of world0 env_exit1 "ascii ''exit 1''" False]
  have "length (spawned (snd (install_from_llm_script env_exit1 (ascii ''exit 1'') False world0))) \<le> 1"
    by (simp add: world0_def)
  with 1 2 show ?thesis by simp
qed

section \<open>The temporary file\<close>

text \<open>
  Claim C6. When the script has been materialized, the file at the returned path holds
  exactly the script text, and its mode is 0755: the owner may read, write and execute,
  the group and the others may read and execute.
\<close>

theorem materialize_roundtrip:
  assumes "materialize e s w = (Inr p, w')"
  shows "\<exists>f. files w' p = Some f \<and> f_content f = s \<and> f_mode f = 493
      \<and> may_read (owner_digit (f_mode f)) \<and> may_write (owner_digit (f_mode f))
      \<and> may_exec (owner_digit (f_mode f))
      \<and> may_read (group_digit (f_mode f)) \<and> \<not> may_write (group_digit (f_mode f))
      \<and> may_exec (group_digit (f_mode f))
      \<and> may_read (other_digit (f_mode f)) \<and> \<not> may_write (other_digit (f_mode f))
      \<and> may_exec (other_digit (f_mode f))"
  using assms
  by (auto simp: materialize_def Let_def owner_digit_def group_digit_def other_digit_def
      may_read_def may_write_def may_exec_def split: sum.splits option.splits prod.splits)

theorem materialize_roundtrip_witness:
  "\<exists>f. files (snd (materialize env_hello (ascii ''echo hello'') world0)) (ascii ''/tmp/tmpk3v9x2qa.sh'') = Some f
      \<and> f_content f = ascii ''echo hello'' \<and> f_mode f = 493 \<and> may_exec (owner_digit (f_mode f))"
proof -
  have m: "materialize env_hello (ascii ''echo hello'') world0
      = (Inr (ascii ''/tmp/tmpk3v9x2qa.sh''), snd (materialize env_hello (ascii ''echo hello'') world0))"
    by (simp add: materialize_def env_hello_def Let_def ascii_def)
  from materialize_roundtrip [OF m] show ?thesis by blast
qed

section \<open>Removal of the temporary file\<close>

text \<open>
  When \<open>execute\<close> returns a report, it has removed the file, once. When it raises, it has
  removed nothing: the file stays on disk.
\<close>

lemma execute_returns_removed:
  assumes "execute e p w = (Inr r, w')"
  shows "removed w' = removed w @ [p] \<and> files w' p = None"
  using assms
  by (auto simp: execute_def Let_def split: sum.splits option.splits prod.splits)

lemma execute_raises_keeps:
  assumes "execute e p w = (Inl x, w')"
  shows "removed w' = removed w \<and> files w' = files w"
  using assms
  by (auto simp: execute_def Let_def split: sum.splits option.splits prod.splits)

text \<open>
  The same for the body of the \<open>try\<close>: a return has removed the file, once; a raise
  after the file was written leaves it where it is, with the script in it.
\<close>

lemma info_keeps: "removed (info ctx m w) = removed w" "files (info ctx m w) = files w"
  by (simp_all add: info_def)

lemma materialize_removed: "removed (snd (materialize e s w)) = removed w"
  by (simp add: materialize_def Let_def split: sum.splits option.splits prod.splits)

lemma materialize_file:
  assumes "materialize e s w = (Inr p, w1)"
  shows "files w1 p = Some \<lparr>f_content = s, f_mode = 493\<rparr>"
  using assms
  by (auto simp: materialize_def Let_def split: sum.splits option.splits prod.splits)

lemma try_body_returns_removed:
  assumes "try_body e s ctx w = (Inr r, w')"
  shows "\<exists>p. fst (materialize e s w) = Inr p \<and> removed w' = removed w @ [p] \<and> files w' p = None"
proof (cases "materialize e s w")
  case (Pair m w1)
  with assms obtain p where p: "m = Inr p"
    by (cases m) (auto simp: try_body_def)
  with Pair assms
  have "execute e p (info ctx (ascii ''Executing install script: '' @ p) w1) = (Inr r, w')"
    by (simp add: try_body_def)
  from execute_returns_removed [OF this] materialize_removed [of e s w] Pair p
  show ?thesis by (simp add: info_keeps)
qed

lemma try_body_raises_keeps_file:
  assumes "materialize e s w = (Inr p, w1)" and "try_body e s ctx w = (Inl x, w')"
  shows "files w' p = Some \<lparr>f_content = s, f_mode = 493\<rparr> \<and> removed w' = removed w"
proof -
  from assms
  have "execute e p (info ctx (ascii ''Executing install script: '' @ p) w1) = (Inl x, w')"
    by (simp add: try_body_def)
  from execute_raises_keeps [OF this] materialize_file [OF assms(1)]
    materialize_removed [of e s w] assms(1)
  show ?thesis by (simp add: info_keeps)
qed

text \<open>
  Claim C1, at two runs that raise. On a host with no \<open>bash\<close> spawning raises; with the
  script that prints the byte FF decoding raises. Both times the handler returns its
  report, and the file written for the script is still on disk, with nothing removed.
\<close>

theorem run_install_script_leaves_file_when_it_raises:
  "fst (run_install_script env_no_bash (ascii ''echo hello'') False world0)
     = error_report (str_exn0 (OSError 2))
   \<and> files (snd (run_install_script env_no_bash (ascii ''echo hello'') False world0))
        (ascii ''/tmp/tmpk3v9x2qa.sh'')
     = Some \<lparr>f_content = ascii ''echo hello'', f_mode = 493\<rparr>
   \<and> removed (snd (run_install_script env_no_bash (ascii ''echo hello'') False world0)) = []
   \<and> fst (run_install_script env_xff script_xff False world0)
     = error_report (str_exn0 UnicodeDecodeError)
   \<and> files (snd (run_install_script env_xff script_xff False world0))
        (ascii ''/tmp/tmpk3v9x2qa.sh'')
     = Some \<lparr>f_content = script_xff, f_mode = 493\<rparr>
   \<and> removed (snd (run_install_script env_xff script_xff False world0)) = []"
  by (simp add: run_install_script_def try_body_def materialize_def execute_def env_no_bash_def
      env_xff_def env_hello_def info_def utf8_decode_def Let_def world0_def ascii_def)

section \<open>Decoding the output of the child\<close>

text \<open>
  Every well-formed UTF-8 sequence decodes, to the text it encodes: one lemma for each
  length of the encoded form.
\<close>

lemma encode_cp_1: "c < 128 \<Longrightarrow> utf8_decode_nat (utf8_encode_cp c @ r) = map_option ((#) c) (utf8_decode_nat r)"
  by (simp add: utf8_encode_cp_def)

lemma encode_cp_2:
  assumes "128 \<le> c" "c < 2048"
  shows "utf8_decode_nat (utf8_encode_cp c @ r) = map_option ((#) c) (utf8_decode_nat r)"
proof -
  define h where "h = c div 64"
  define l where "l = c mod 64"
  have h: "2 \<le> h" "h < 32" using assms by (auto simp: h_def)
  have l: "l < 64" by (simp add: l_def)
  have c: "h * 64 + l = c" by (simp add: h_def l_def)
  have "utf8_encode_cp c = [192 + h, 128 + l]"
    using assms by (simp add: utf8_encode_cp_def h_def l_def)
  with h l c show ?thesis
    by (simp add: is_cont_def)
qed

lemma encode_cp_3:
  assumes "2048 \<le> c" "c < 65536" "valid_scalar c"
  shows "utf8_decode_nat (utf8_encode_cp c @ r) = map_option ((#) c) (utf8_decode_nat r)"
proof -
  define q where "q = c div 64"
  define h where "h = q div 64"
  define m where "m = q mod 64"
  define l where "l = c mod 64"
  have m: "m < 64" by (simp add: m_def)
  have l: "l < 64" by (simp add: l_def)
  have q: "q = h * 64 + m" by (simp add: h_def m_def)
  have cq: "c = q * 64 + l" by (simp add: q_def l_def)
  have c: "h * 4096 + m * 64 + l = c"
    unfolding cq q by simp
  have h: "h < 16"
    using assms(2) c by arith
  have lo: "h = 0 \<Longrightarrow> 32 \<le> m"
    using assms(1) c l by arith
  have hi: "h = 13 \<Longrightarrow> m < 32"
    using assms(2,3) c m l unfolding valid_scalar_def by arith
  have "c div 4096 = h" "c div 64 mod 64 = m"
    by (simp_all add: h_def m_def q_def div_mult2_eq)
  then have e: "utf8_encode_cp c = [224 + h, 128 + m, 128 + l]"
    using assms by (simp add: utf8_encode_cp_def l_def)
  have s: "second_lo (224 + h) \<le> 128 + m" "128 + m < second_hi (224 + h)"
    using h m lo hi by (auto simp: second_lo_def second_hi_def)
  show ?thesis
    unfolding e using h m l c s by (simp add: is_cont_def)
qed

lemma encode_cp_4:
  assumes "65536 \<le> c" "c < 1114112"
  shows "utf8_decode_nat (utf8_encode_cp c @ r) = map_option ((#) c) (utf8_decode_nat r)"
proof -
  define q where "q = c div 64"
  define p where "p = q div 64"
  define h where "h = p div 64"
  define k where "k = p mod 64"
  define m where "m = q mod 64"
  define l where "l = c mod 64"
  have k: "k < 64" by (simp add: k_def)
  have m: "m < 64" by (simp add: m_def)
  have l: "l < 64" by (simp add: l_def)
  have p: "p = h * 64 + k" by (simp add: h_def k_def)
  have q: "q = p * 64 + m" by (simp add: p_def m_def)
  have cq: "c = q * 64 + l" by (simp add: q_def l_def)
  have c: "h * 262144 + k * 4096 + m * 64 + l = c"
    unfolding cq q p by simp
  have h: "h < 5"
    using assms(2) c by arith
  have lo: "h = 0 \<Longrightarrow> 16 \<le> k"
    using assms(1) c m l by arith
  have hi: "h = 4 \<Longrightarrow> k < 16"
    using assms(2) c by arith
  have cp: "c div 4096 = p"
    by (simp add: p_def q_def div_mult2_eq)
  have "c div 262144 = c div 4096 div 64"
    by (simp add: div_mult2_eq)
  then have "c div 262144 = h" "c div 4096 mod 64 = k" "c div 64 mod 64 = m"
    by (simp_all add: cp h_def k_def m_def q_def)
  then have e: "utf8_encode_cp c = [240 + h, 128 + k, 128 + m, 128 + l]"
    using assms by (simp add: utf8_encode_cp_def l_def)
  have s: "second_lo (240 + h) \<le> 128 + k" "128 + k < second_hi (240 + h)"
    using h k lo hi by (auto simp: second_lo_def second_hi_def)
  show ?thesis
    unfolding e using h k m l c s by (simp add: is_cont_def)
qed

lemma encode_cp:
  "valid_scalar c \<Longrightarrow>
     utf8_decode_nat (utf8_encode_cp c @ r) = map_option ((#) c) (utf8_decode_nat r)"
  using encode_cp_1 [of c r] encode_cp_2 [of c r] encode_cp_3 [of c r] encode_cp_4 [of c r]
  by (cases "c < 128"; cases "c < 2048"; cases "c < 65536") (auto simp: valid_scalar_def)

lemma encode_cp_bytes: "valid_scalar c \<Longrightarrow> \<forall>b\<in>set (utf8_encode_cp c). b < 256"
  by (auto simp: utf8_encode_cp_def valid_scalar_def)

lemma decode_encode_nat:
  "\<forall>c\<in>set t. valid_scalar c \<Longrightarrow> utf8_decode_nat (concat (map utf8_encode_cp t)) = Some t"
  by (induction t) (simp_all add: encode_cp)

lemma unat_bytes: "\<forall>b\<in>set bs. b < 256 \<Longrightarrow> map unat (map of_nat bs :: 8 word list) = bs"
  by (induction bs) (simp_all add: of_nat_inverse)

lemma decode_encode:
  assumes "\<forall>c\<in>set t. valid_scalar c"
  shows "utf8_decode (utf8_encode t) = Some t"
proof -
  have "\<forall>b\<in>set (concat (map utf8_encode_cp t)). b < 256"
    using assms encode_cp_bytes by auto
  then show ?thesis
    using assms unat_bytes [of "concat (map utf8_encode_cp t)"]
    by (simp add: utf8_decode_def utf8_encode_def decode_encode_nat del: map_map)
qed

text \<open>
  Conversely, what decodes is well-formed: the decoder accepts a byte sequence only when
  it is the UTF-8 form of the text it returns. So every other sequence raises.
\<close>

lemma decoded_1: "b0 < 128 \<Longrightarrow> valid_scalar b0 \<and> utf8_encode_cp b0 = [b0]"
  by (simp add: valid_scalar_def utf8_encode_cp_def)

lemma decoded_2:
  assumes "194 \<le> b0" "b0 < 224" "is_cont b1"
  shows "valid_scalar ((b0 - 192) * 64 + (b1 - 128))
    \<and> utf8_encode_cp ((b0 - 192) * 64 + (b1 - 128)) = [b0, b1]"
proof -
  define h where "h = b0 - 192"
  define l where "l = b1 - 128"
  have h: "2 \<le> h" "h < 32" "b0 = 192 + h" using assms by (auto simp: h_def)
  have l: "l < 64" "b1 = 128 + l" using assms by (auto simp: l_def is_cont_def)
  define c where "c = h * 64 + l"
  have r: "128 \<le> c" "c < 2048" using h l by (auto simp: c_def)
  have d: "c div 64 = h" "c mod 64 = l" using l by (simp_all add: c_def)
  from r d h l have "valid_scalar c \<and> utf8_encode_cp c = [b0, b1]"
    by (simp add: valid_scalar_def utf8_encode_cp_def)
  then show ?thesis by (simp add: c_def h_def l_def)
qed

lemma decoded_3:
  assumes "224 \<le> b0" "b0 < 240" "second_lo b0 \<le> b1" "b1 < second_hi b0" "is_cont b2"
  shows "valid_scalar ((b0 - 224) * 4096 + (b1 - 128) * 64 + (b2 - 128))
    \<and> utf8_encode_cp ((b0 - 224) * 4096 + (b1 - 128) * 64 + (b2 - 128)) = [b0, b1, b2]"
proof -
  define h where "h = b0 - 224"
  define m where "m = b1 - 128"
  define l where "l = b2 - 128"
  have h: "h < 16" "b0 = 224 + h" using assms by (auto simp: h_def)
  have b1: "128 \<le> b1" "b1 < 192"
    using assms(3,4) by (auto simp: second_lo_def second_hi_def split: if_splits)
  have m: "m < 64" "b1 = 128 + m" using b1 by (auto simp: m_def)
  have l: "l < 64" "b2 = 128 + l" using assms by (auto simp: l_def is_cont_def)
  have lo: "h = 0 \<Longrightarrow> 32 \<le> m"
    using assms(3) h(2) m(2) by (simp add: second_lo_def)
  have hi: "h = 13 \<Longrightarrow> m < 32"
    using assms(4) h(2) m(2) by (simp add: second_hi_def)
  define q where "q = h * 64 + m"
  define c where "c = q * 64 + l"
  have cq: "c div 64 = q" "c mod 64 = l" using l by (simp_all add: c_def)
  have qh: "q div 64 = h" "q mod 64 = m" using m by (simp_all add: q_def)
  have c4096: "c div 4096 = h"
  proof -
    have "c div 4096 = c div 64 div 64" by (simp add: div_mult2_eq)
    then show ?thesis by (simp add: cq qh)
  qed
  have ce: "c = h * 4096 + m * 64 + l" by (simp add: c_def q_def)
  have r1: "2048 \<le> c"
  proof (cases "h = 0")
    case True
    with lo have "32 \<le> m" by simp
    then show ?thesis unfolding ce by arith
  next
    case False
    then have "1 \<le> h" by simp
    then show ?thesis unfolding ce by arith
  qed
  have r2: "c < 65536" using h(1) m(1) l(1) unfolding ce by arith
  note r = r1 r2
  have v: "valid_scalar c"
  proof -
    consider "h \<le> 12" | "h = 13" | "14 \<le> h" by arith
    then show ?thesis
    proof cases
      case 1
      then have "c < 55296" using m l unfolding ce by arith
      then show ?thesis by (simp add: valid_scalar_def)
    next
      case 2
      with hi have "m < 32" by simp
      with 2 have "c < 55296" using l unfolding ce by arith
      then show ?thesis by (simp add: valid_scalar_def)
    next
      case 3
      then have "57344 \<le> c" unfolding ce by arith
      then show ?thesis using r by (simp add: valid_scalar_def)
    qed
  qed
  have "utf8_encode_cp c = [b0, b1, b2]"
    using r h m l by (simp add: utf8_encode_cp_def c4096 cq qh)
  with v show ?thesis by (simp add: ce h_def m_def l_def)
qed

lemma decoded_4:
  assumes "240 \<le> b0" "b0 < 245" "second_lo b0 \<le> b1" "b1 < second_hi b0"
    "is_cont b2" "is_cont b3"
  shows "valid_scalar ((b0 - 240) * 262144 + (b1 - 128) * 4096 + (b2 - 128) * 64 + (b3 - 128))
    \<and> utf8_encode_cp ((b0 - 240) * 262144 + (b1 - 128) * 4096 + (b2 - 128) * 64 + (b3 - 128))
        = [b0, b1, b2, b3]"
proof -
  define h where "h = b0 - 240"
  define k where "k = b1 - 128"
  define m where "m = b2 - 128"
  define l where "l = b3 - 128"
  have h: "h < 5" "b0 = 240 + h" using assms by (auto simp: h_def)
  have b1: "128 \<le> b1" "b1 < 192"
    using assms(3,4) by (auto simp: second_lo_def second_hi_def split: if_splits)
  have k: "k < 64" "b1 = 128 + k" using b1 by (auto simp: k_def)
  have m: "m < 64" "b2 = 128 + m" using assms by (auto simp: m_def is_cont_def)
  have l: "l < 64" "b3 = 128 + l" using assms by (auto simp: l_def is_cont_def)
  have lo: "h = 0 \<Longrightarrow> 16 \<le> k"
    using assms(3) h(2) k(2) by (simp add: second_lo_def)
  have hi: "h = 4 \<Longrightarrow> k < 16"
    using assms(4) h(2) k(2) by (simp add: second_hi_def)
  define p where "p = h * 64 + k"
  define q where "q = p * 64 + m"
  define c where "c = q * 64 + l"
  have cq: "c div 64 = q" "c mod 64 = l" using l by (simp_all add: c_def)
  have qp: "q div 64 = p" "q mod 64 = m" using m by (simp_all add: q_def)
  have ph: "p div 64 = h" "p mod 64 = k" using k by (simp_all add: p_def)
  have c4096: "c div 4096 = p"
  proof -
    have "c div 4096 = c div 64 div 64" by (simp add: div_mult2_eq)
    then show ?thesis by (simp add: cq qp)
  qed
  have c262144: "c div 262144 = h"
  proof -
    have "c div 262144 = c div 4096 div 64" by (simp add: div_mult2_eq)
    then show ?thesis by (simp add: c4096 ph)
  qed
  have ce: "c = h * 262144 + k * 4096 + m * 64 + l" by (simp add: c_def q_def p_def)
  have r1: "65536 \<le> c"
  proof (cases "h = 0")
    case True
    with lo have "16 \<le> k" by simp
    then show ?thesis unfolding ce by arith
  next
    case False
    then have "1 \<le> h" by simp
    then show ?thesis unfolding ce by arith
  qed
  have r2: "c < 1114112"
  proof (cases "h = 4")
    case True
    with hi have "k < 16" by simp
    with True show ?thesis using m(1) l(1) unfolding ce by arith
  next
    case False
    with h(1) have "h \<le> 3" by arith
    then show ?thesis using k(1) m(1) l(1) unfolding ce by arith
  qed
  note r = r1 r2
  have v: "valid_scalar c"
    using r by (simp add: valid_scalar_def)
  have "utf8_encode_cp c = [b0, b1, b2, b3]"
    using r h k m l by (simp add: utf8_encode_cp_def c262144 c4096 cq qp ph)
  with v show ?thesis by (simp add: ce h_def k_def m_def l_def)
qed

lemma encode_decoded_nat:
  "utf8_decode_nat bs = Some t \<Longrightarrow>
     (\<forall>c\<in>set t. valid_scalar c) \<and> concat (map utf8_encode_cp t) = bs"
proof (induction bs arbitrary: t rule: utf8_decode_nat.induct)
  case 1
  then show ?case by simp
next
  case (2 b0 bs)
  consider (one) "b0 < 128"
    | (two) "\<not> b0 < 128" "194 \<le> b0 \<and> b0 < 224"
    | (three) "\<not> b0 < 128" "\<not> (194 \<le> b0 \<and> b0 < 224)" "224 \<le> b0 \<and> b0 < 240"
    | (four) "\<not> b0 < 128" "\<not> (194 \<le> b0 \<and> b0 < 224)" "\<not> (224 \<le> b0 \<and> b0 < 240)"
        "240 \<le> b0 \<and> b0 < 245"
    | (none) "\<not> b0 < 128" "\<not> (194 \<le> b0 \<and> b0 < 224)" "\<not> (224 \<le> b0 \<and> b0 < 240)"
        "\<not> (240 \<le> b0 \<and> b0 < 245)"
    by blast
  then show ?case
  proof cases
    case one
    with "2.prems" obtain t' where t': "utf8_decode_nat bs = Some t'" "t = b0 # t'"
      by auto
    from "2.IH"(1) [OF one t'(1)] decoded_1 [OF one] t'(2) show ?thesis by simp
  next
    case two
    with "2.prems" obtain b1 r t' where s: "bs = b1 # r" "is_cont b1"
      "utf8_decode_nat r = Some t'" "t = ((b0 - 192) * 64 + (b1 - 128)) # t'"
      by (auto split: list.splits if_splits)
    from "2.IH"(2) [OF two s(1,2,3)] decoded_2 [of b0 b1] two s show ?thesis by simp
  next
    case three
    with "2.prems" obtain b1 b2 r t' where s: "bs = b1 # b2 # r"
      "second_lo b0 \<le> b1 \<and> b1 < second_hi b0 \<and> is_cont b2"
      "utf8_decode_nat r = Some t'"
      "t = ((b0 - 224) * 4096 + (b1 - 128) * 64 + (b2 - 128)) # t'"
      by (auto split: list.splits if_splits)
    from s(1) have s1: "bs = b1 # (b2 # r)" "b2 # r = b2 # r" by simp_all
    from "2.IH"(3) [OF three s1 s(2,3)] decoded_3 [of b0 b1 b2] three s show ?thesis by simp
  next
    case four
    with "2.prems" obtain b1 b2 b3 r t' where s: "bs = b1 # b2 # b3 # r"
      "second_lo b0 \<le> b1 \<and> b1 < second_hi b0 \<and> is_cont b2 \<and> is_cont b3"
      "utf8_decode_nat r = Some t'"
      "t = ((b0 - 240) * 262144 + (b1 - 128) * 4096 + (b2 - 128) * 64 + (b3 - 128)) # t'"
      by (auto split: list.splits if_splits)
    from s(1) have s1: "bs = b1 # (b2 # b3 # r)" "b2 # b3 # r = b2 # (b3 # r)" "b3 # r = b3 # r"
      by simp_all
    from "2.IH"(4) [OF four s1 s(2,3)] decoded_4 [of b0 b1 b2 b3] four s show ?thesis by simp
  next
    case none
    with "2.prems" show ?thesis by simp
  qed
qed

lemma encode_decoded:
  assumes "utf8_decode bs = Some t"
  shows "(\<forall>c\<in>set t. valid_scalar c) \<and> utf8_encode t = bs"
proof -
  from assms have "utf8_decode_nat (map unat bs) = Some t"
    by (simp add: utf8_decode_def)
  from encode_decoded_nat [OF this]
  have v: "\<forall>c\<in>set t. valid_scalar c" and c: "concat (map utf8_encode_cp t) = map unat bs"
    by simp_all
  have "map of_nat (map unat bs) = bs"
    by (induction bs) simp_all
  with c have "utf8_encode t = bs" by (simp only: utf8_encode_def)
  with v show ?thesis by simp
qed

lemma decode_None_iff:
  "utf8_decode bs = None \<longleftrightarrow> \<not> (\<exists>t. (\<forall>c\<in>set t. valid_scalar c) \<and> bs = utf8_encode t)"
proof
  assume n: "utf8_decode bs = None"
  show "\<not> (\<exists>t. (\<forall>c\<in>set t. valid_scalar c) \<and> bs = utf8_encode t)"
  proof
    assume "\<exists>t. (\<forall>c\<in>set t. valid_scalar c) \<and> bs = utf8_encode t"
    then obtain t where "\<forall>c\<in>set t. valid_scalar c" "bs = utf8_encode t" by blast
    then have "utf8_decode bs = Some t" by (simp add: decode_encode)
    with n show False by simp
  qed
next
  assume a: "\<not> (\<exists>t. (\<forall>c\<in>set t. valid_scalar c) \<and> bs = utf8_encode t)"
  show "utf8_decode bs = None"
  proof (cases "utf8_decode bs")
    case None
    then show ?thesis .
  next
    case (Some t)
    from encode_decoded [OF Some] a show ?thesis by blast
  qed
qed

text \<open>What \<open>strip\<close> removes, and what it leaves.\<close>

lemma strip_splits:
  "\<exists>a b. t = a @ strip t @ b \<and> (\<forall>c\<in>set a. isspace c) \<and> (\<forall>c\<in>set b. isspace c)"
proof -
  define u where "u = dropWhile isspace t"
  have t: "t = takeWhile isspace t @ u"
    by (simp add: u_def)
  have "rev (dropWhile isspace (rev u)) @ rev (takeWhile isspace (rev u))
      = rev (takeWhile isspace (rev u) @ dropWhile isspace (rev u))"
    by (simp only: rev_append)
  also have "\<dots> = rev (rev u)"
    by (simp only: takeWhile_dropWhile_id)
  also have "\<dots> = u"
    by simp
  finally have u: "u = strip t @ rev (takeWhile isspace (rev u))"
    by (simp only: strip_def u_def)
  have a: "\<forall>c\<in>set (takeWhile isspace t). isspace c"
    by (auto dest: set_takeWhileD)
  have b: "\<forall>c\<in>set (rev (takeWhile isspace (rev u))). isspace c"
    by (auto dest: set_takeWhileD)
  from t u have "t = takeWhile isspace t @ strip t @ rev (takeWhile isspace (rev u))"
    by simp
  with a b show ?thesis by blast
qed

lemma last_dropWhile: "dropWhile P xs \<noteq> [] \<Longrightarrow> last (dropWhile P xs) = last xs"
  by (metis last_appendR takeWhile_dropWhile_id)

lemma strip_ends:
  assumes "strip t \<noteq> []"
  shows "\<not> isspace (hd (strip t)) \<and> \<not> isspace (last (strip t))"
proof -
  define u where "u = dropWhile isspace t"
  define v where "v = dropWhile isspace (rev u)"
  have s: "strip t = rev v" by (simp add: strip_def u_def v_def)
  with assms have v: "v \<noteq> []" by simp
  then have "rev u \<noteq> []" by (auto simp: v_def)
  then have u: "u \<noteq> []" by simp
  have "\<not> isspace (hd v)"
    using v unfolding v_def by (rule hd_dropWhile)
  then have l: "\<not> isspace (last (strip t))"
    using v by (simp add: s last_rev)
  have "last v = last (rev u)"
    using v unfolding v_def by (rule last_dropWhile)
  then have "hd (strip t) = hd u"
    using v u by (simp add: s hd_rev last_rev)
  moreover have "\<not> isspace (hd u)"
    using u unfolding u_def by (rule hd_dropWhile)
  ultimately show ?thesis using l by simp
qed

text \<open>
  The report of \<open>run_install_script\<close> once the file is written and the child has run.
\<close>

lemma run_ok_until_communicate:
  assumes "tmp_name e = Inr n" "tmp_write e = None" "chmod_raises e = None"
    "spawn_raises e = None" "communicate e = Inr (stdout, stderr, rc)"
  shows "fst (run_install_script e s ctx w) =
    (case utf8_decode stdout of
       None \<Rightarrow> error_report (str_exn e UnicodeDecodeError)
     | Some out \<Rightarrow>
        (case utf8_decode stderr of
           None \<Rightarrow> error_report (str_exn e UnicodeDecodeError)
         | Some err \<Rightarrow>
            (case remove_raises e of
               Some x \<Rightarrow> error_report (str_exn e x)
             | None \<Rightarrow> if rc = 0 then succeeded_report (strip out)
                       else failed_report rc (strip err))))"
  using assms
  by (simp add: run_install_script_def try_body_def materialize_def execute_def Let_def
      split: option.splits)

text \<open>The texts of the two reports of a completed run.\<close>

lemma succeeded_report_text:
  "succeeded_report output = [9989] @ ascii '' Installation succeeded:'' @ [10, 10] @ output"
  by (simp add: succeeded_report_def check_mark_def nl_def)

lemma failed_report_text:
  "failed_report rc error =
     [10060] @ ascii '' Installation failed (exit code '' @ str_int rc @ ascii ''):''
       @ [10, 10] @ error"
  by (simp add: failed_report_def cross_mark_def nl_def)

text \<open>
  Claim C5, as amended. The output of the child is decoded as strict UTF-8. A byte
  sequence decodes exactly when it is well-formed, that is, the UTF-8 form of a text
  of scalar values, and then it decodes to that text; every other sequence raises
  \<open>UnicodeDecodeError\<close>: nothing is replaced or skipped. When both streams are
  well-formed (and the file can be removed), the report is the check mark and
  \<open>Installation succeeded:\<close> with the decoded standard output, or the cross mark and
  \<open>Installation failed\<close> with the exit code and the decoded standard error, in both
  cases with the white space at both ends removed. When one of the streams is not
  well-formed, \<open>run_install_script\<close> returns the report of its handler. Stripping
  removes white space only, and leaves none at either end.
\<close>

theorem decode_strict_then_stripped:
  assumes "tmp_name e = Inr n" "tmp_write e = None" "chmod_raises e = None"
    "spawn_raises e = None" "communicate e = Inr (stdout, stderr, rc)"
  shows "(\<forall>out err. utf8_decode stdout = Some out \<and> utf8_decode stderr = Some err
            \<and> remove_raises e = None \<longrightarrow>
          fst (run_install_script e s ctx w) =
            (if rc = 0 then succeeded_report (strip out) else failed_report rc (strip err)))
    \<and> (utf8_decode stdout = None \<or> utf8_decode stderr = None \<longrightarrow>
          fst (run_install_script e s ctx w) = error_report (str_exn e UnicodeDecodeError))
    \<and> (\<forall>t. (\<forall>c\<in>set t. valid_scalar c) \<longrightarrow> utf8_decode (utf8_encode t) = Some t)
    \<and> (\<forall>t. \<exists>a b. t = a @ strip t @ b \<and> (\<forall>c\<in>set a. isspace c) \<and> (\<forall>c\<in>set b. isspace c))
    \<and> (\<forall>t. strip t \<noteq> [] \<longrightarrow> \<not> isspace (hd (strip t)) \<and> \<not> isspace (last (strip t)))
    \<and> (\<forall>bs t. utf8_decode bs = Some t \<longrightarrow>
          (\<forall>c\<in>set t. valid_scalar c) \<and> utf8_encode t = bs)
    \<and> (\<forall>bs. utf8_decode bs = None \<longleftrightarrow>
          \<not> (\<exists>t. (\<forall>c\<in>set t. valid_scalar c) \<and> bs = utf8_encode t))
    \<and> (\<forall>out err. (\<forall>c\<in>set out. valid_scalar c) \<and> (\<forall>c\<in>set err. valid_scalar c)
            \<and> stdout = utf8_encode out \<and> stderr = utf8_encode err
            \<and> remove_raises e = None \<longrightarrow>
          fst (run_install_script e s ctx w) =
            (if rc = 0
             then [9989] @ ascii '' Installation succeeded:'' @ [10, 10] @ strip out
             else [10060] @ ascii '' Installation failed (exit code '' @ str_int rc
                    @ ascii ''):'' @ [10, 10] @ strip err))
    \<and> (\<not> (\<exists>t. (\<forall>c\<in>set t. valid_scalar c) \<and> stdout = utf8_encode t)
         \<or> \<not> (\<exists>t. (\<forall>c\<in>set t. valid_scalar c) \<and> stderr = utf8_encode t) \<longrightarrow>
          fst (run_install_script e s ctx w) =
            [10060] @ ascii '' Error during installation: '' @ str_exn e UnicodeDecodeError)"
proof (intro conjI allI impI)
  fix out err
  assume "utf8_decode stdout = Some out \<and> utf8_decode stderr = Some err \<and> remove_raises e = None"
  then show "fst (run_install_script e s ctx w) =
            (if rc = 0 then succeeded_report (strip out) else failed_report rc (strip err))"
    by (simp add: run_ok_until_communicate [OF assms])
next
  assume "utf8_decode stdout = None \<or> utf8_decode stderr = None"
  then show "fst (run_install_script e s ctx w) = error_report (str_exn e UnicodeDecodeError)"
    by (auto simp: run_ok_until_communicate [OF assms] split: option.splits)
next
  fix t :: pystr
  assume "\<forall>c\<in>set t. valid_scalar c"
  then show "utf8_decode (utf8_encode t) = Some t" by (rule decode_encode)
next
  fix t
  show "\<exists>a b. t = a @ strip t @ b \<and> (\<forall>c\<in>set a. isspace c) \<and> (\<forall>c\<in>set b. isspace c)"
    by (rule strip_splits)
next
  fix t
  assume "strip t \<noteq> []"
  then show "\<not> isspace (hd (strip t))" "\<not> isspace (last (strip t))"
    using strip_ends by blast+
next
  fix bs t
  assume d: "utf8_decode bs = Some t"
  from encode_decoded [OF d] show "\<forall>c\<in>set t. valid_scalar c" "utf8_encode t = bs"
    by simp_all
next
  fix bs
  show "utf8_decode bs = None \<longleftrightarrow>
          \<not> (\<exists>t. (\<forall>c\<in>set t. valid_scalar c) \<and> bs = utf8_encode t)"
    by (rule decode_None_iff)
next
  fix out err
  assume a: "(\<forall>c\<in>set out. valid_scalar c) \<and> (\<forall>c\<in>set err. valid_scalar c)
            \<and> stdout = utf8_encode out \<and> stderr = utf8_encode err
            \<and> remove_raises e = None"
  then have "utf8_decode stdout = Some out" "utf8_decode stderr = Some err"
    by (simp_all add: decode_encode)
  with a have "fst (run_install_script e s ctx w) =
            (if rc = 0 then succeeded_report (strip out) else failed_report rc (strip err))"
    by (simp add: run_ok_until_communicate [OF assms])
  then show "fst (run_install_script e s ctx w) =
            (if rc = 0
             then [9989] @ ascii '' Installation succeeded:'' @ [10, 10] @ strip out
             else [10060] @ ascii '' Installation failed (exit code '' @ str_int rc
                    @ ascii ''):'' @ [10, 10] @ strip err)"
    by (simp only: succeeded_report_text failed_report_text)
next
  assume "\<not> (\<exists>t. (\<forall>c\<in>set t. valid_scalar c) \<and> stdout = utf8_encode t)
         \<or> \<not> (\<exists>t. (\<forall>c\<in>set t. valid_scalar c) \<and> stderr = utf8_encode t)"
  then have "utf8_decode stdout = None \<or> utf8_decode stderr = None"
    by (simp only: decode_None_iff)
  then have "fst (run_install_script e s ctx w) = error_report (str_exn e UnicodeDecodeError)"
    by (auto simp: run_ok_until_communicate [OF assms] split: option.splits)
  then show "fst (run_install_script e s ctx w) =
            [10060] @ ascii '' Error during installation: '' @ str_exn e UnicodeDecodeError"
    by (simp only: error_report_text)
qed

theorem decode_strict_then_stripped_witness:
  "fst (run_install_script env_hello (ascii ''echo hello'') False world0)
     = [9989] @ ascii '' Installation succeeded:'' @ [10, 10] @ ascii ''hello''
   \<and> fst (run_install_script env_xff script_xff False world0)
     = [10060] @ ascii '' Error during installation: '' @ str_exn0 UnicodeDecodeError
   \<and> utf8_decode [255] = None \<and> utf8_decode [128] = None \<and> utf8_decode [68, 128, 69] = None"
proof -
  have h: "tmp_name env_hello = Inr (ascii ''/tmp/tmpk3v9x2qa'')" "tmp_write env_hello = None"
    "chmod_raises env_hello = None" "spawn_raises env_hello = None"
    "communicate env_hello = Inr ([104, 101, 108, 108, 111, 10], [], 0)"
    by (simp_all add: env_hello_def)
  have x: "tmp_name env_xff = Inr (ascii ''/tmp/tmpk3v9x2qa'')" "tmp_write env_xff = None"
    "chmod_raises env_xff = None" "spawn_raises env_xff = None"
    "communicate env_xff = Inr ([255], [], 0)"
    by (simp_all add: env_xff_def env_hello_def)
  have d: "utf8_decode [104, 101, 108, 108, 111, 10] = Some (ascii ''hello'' @ [10])
      \<and> utf8_decode [] = Some [] \<and> remove_raises env_hello = None"
    by (simp add: utf8_decode_def ascii_def env_hello_def)
  have st: "strip (ascii ''hello'' @ [10]) = ascii ''hello''"
    by (simp add: strip_def isspace_def ascii_def)
  have f: "utf8_decode [255] = None" "utf8_decode [128] = None" "utf8_decode [68, 128, 69] = None"
    by (simp_all add: utf8_decode_def)
  have sx: "str_exn env_xff = str_exn0"
    by (simp add: env_xff_def env_hello_def)
  note T = decode_strict_then_stripped [OF h, of "ascii ''echo hello''" False world0]
  note X = decode_strict_then_stripped [OF x, of script_xff False world0]
  note ok = T [THEN conjunct1, rule_format, OF d]
  have 1: "fst (run_install_script env_hello (ascii ''echo hello'') False world0)
     = [9989] @ ascii '' Installation succeeded:'' @ [10, 10] @ ascii ''hello''"
    using ok st by (simp add: succeeded_report_text)
  note bad = X [THEN conjunct2, THEN conjunct1, rule_format, OF disjI1, OF f(1)]
  have 2: "fst (run_install_script env_xff script_xff False world0)
     = [10060] @ ascii '' Error during installation: '' @ str_exn0 UnicodeDecodeError"
    using bad sx by (simp add: error_report_text)
  from 1 2 f show ?thesis by simp
qed

text \<open>
  Claim C5, as stated, fails when the child prints the byte FF: decoding raises, and the
  report is the one of the handler, not the output of the child.
\<close>

theorem decode_raises_on_byte_ff:
  "utf8_decode [255] = None
   \<and> fst (run_install_script env_xff script_xff False world0)
       = error_report (str_exn0 UnicodeDecodeError)
   \<and> fst (run_install_script env_xff script_xff False world0) \<noteq> succeeded_report []
   \<and> fst (run_install_script env_xff script_xff False world0)
       = [10060] @ ascii '' Error during installation: '' @ str_exn0 UnicodeDecodeError"
  by (simp add: run_install_script_def try_body_def materialize_def execute_def env_xff_def
      env_hello_def info_def utf8_decode_def Let_def error_report_def succeeded_report_def
      cross_mark_def check_mark_def)

section \<open>The compatibility report\<close>



text \<open>
  An empty \<open>system\<close> counts as none given: the host decides. A non-empty one is used as
  it is, and the report still prints the release and the version of the host.
\<close>

lemma check_compatibility_empty_system:
  "check_compatibility U h component (Some []) ctx w = check_compatibility U h component None ctx w"
  by (simp add: check_compatibility_def supplied_def)





end
